theory Spec2Isabelle
  imports Main
begin

section \<open>Strings of the runtime\<close>

text \<open>
  The handler of \<^verbatim>\<open>src/handler.ts\<close> works on JavaScript strings. A string is modelled
  as a \<^typ>\<open>string\<close> whose characters are code units in the range 0..255 (ASCII and the
  Latin-1 supplement); code units above 255 are outside the model. On this range the
  runtime's \<^verbatim>\<open>toLowerCase\<close>, \<^verbatim>\<open>trim\<close> and the regular-expression class \<^verbatim>\<open>\s\<close>
  are given below as the language standard defines them.
\<close>

definition code :: "char \<Rightarrow> nat" where
  "code c = of_char c"

text \<open>
  White space and line terminators (what \<^verbatim>\<open>trim\<close> strips and \<^verbatim>\<open>\s\<close> matches):
  TAB, LF, VT, FF, CR, SPACE and NO-BREAK SPACE.
\<close>

definition isWhiteSpace :: "char \<Rightarrow> bool" where
  "isWhiteSpace c = (code c \<in> {9, 10, 11, 12, 13, 32, 160})"

definition trim :: "string \<Rightarrow> string" where
  "trim s = rev (dropWhile isWhiteSpace (rev (dropWhile isWhiteSpace s)))"

text \<open>
  \<^verbatim>\<open>toLowerCase\<close>: A..Z and the capital letters of Latin-1 (U+00C0..U+00DE without
  the multiplication sign U+00D7) move up by 32; every other code unit stays.
\<close>

definition lowerChar :: "char \<Rightarrow> char" where
  "lowerChar c =
     (if (65 \<le> code c \<and> code c \<le> 90) \<or> (192 \<le> code c \<and> code c \<le> 222 \<and> code c \<noteq> 215)
      then char_of (code c + 32) else c)"

definition toLowerCase :: "string \<Rightarrow> string" where
  "toLowerCase s = map lowerChar s"

text \<open>\<^verbatim>\<open>s.includes(c)\<close>: \<open>c\<close> occurs in \<open>s\<close> as a contiguous substring.\<close>

fun startsWith :: "string \<Rightarrow> string \<Rightarrow> bool" where
  "startsWith s [] = True"
| "startsWith [] (y # ys) = False"
| "startsWith (x # xs) (y # ys) = (x = y \<and> startsWith xs ys)"

fun includes_str :: "string \<Rightarrow> string \<Rightarrow> bool" where
  "includes_str [] c = (c = [])"
| "includes_str (x # xs) c = (startsWith (x # xs) c \<or> includes_str xs c)"

text \<open>Decimal rendering of a non-negative integer, as a template literal prints it.\<close>

function numberToString :: "nat \<Rightarrow> string" where
  "numberToString n =
     (if n < 10 then [''0123456789'' ! n]
      else numberToString (n div 10) @ [''0123456789'' ! (n mod 10)])"
  by pat_completeness auto
termination
  by (relation "measure (\<lambda>n. n)") auto

section \<open>Regular expressions\<close>

text \<open>
  Both regular expressions of the handler are sequences of character classes, each taken
  once, zero or more times (\<^verbatim>\<open>*\<close>) or one or more times (\<^verbatim>\<open>+\<close>). The matcher returns,
  for a pattern and an input, every remainder of the input that a match of the pattern
  at the start of the input can leave; \<^verbatim>\<open>test\<close> on a pattern anchored with \<^verbatim>\<open>^\<close> and \<^verbatim>\<open>$\<close>
  asks for the empty remainder, \<^verbatim>\<open>test\<close> on a pattern without anchors asks for a match
  at some start position.
\<close>

datatype quantifier = Once | ZeroOrMore | OneOrMore

type_synonym atom = "(char \<Rightarrow> bool) \<times> quantifier"

fun eat :: "(char \<Rightarrow> bool) \<Rightarrow> string \<Rightarrow> string list" where
  "eat p [] = [[]]"
| "eat p (c # cs) = (c # cs) # (if p c then eat p cs else [])"

fun step :: "atom \<Rightarrow> string \<Rightarrow> string list" where
  "step (p, Once) [] = []"
| "step (p, Once) (c # cs) = (if p c then [cs] else [])"
| "step (p, ZeroOrMore) s = eat p s"
| "step (p, OneOrMore) [] = []"
| "step (p, OneOrMore) (c # cs) = (if p c then eat p cs else [])"

fun run :: "atom list \<Rightarrow> string \<Rightarrow> string list" where
  "run [] s = [s]"
| "run (a # as) s = concat (map (run as) (step a s))"

fun tails :: "string \<Rightarrow> string list" where
  "tails [] = [[]]"
| "tails (c # cs) = (c # cs) # tails cs"

definition testAnchored :: "atom list \<Rightarrow> string \<Rightarrow> bool" where
  "testAnchored r s = ([] \<in> set (run r s))"

definition testSearch :: "atom list \<Rightarrow> string \<Rightarrow> bool" where
  "testSearch r s = list_ex (\<lambda>t. run r t \<noteq> []) (tails s)"

text \<open>
  The flag \<^verbatim>\<open>i\<close> compares canonicalized code units: the upper-case mapping of the code
  unit, kept only when it is a single code unit and does not map a non-ASCII code unit
  to an ASCII one. The result can lie above 255 (for U+00FF and U+00B5), so it is a
  number.
\<close>

definition canonicalize :: "char \<Rightarrow> nat" where
  "canonicalize c =
     (if (97 \<le> code c \<and> code c \<le> 122) \<or> (224 \<le> code c \<and> code c \<le> 254 \<and> code c \<noteq> 247)
      then code c - 32
      else if code c = 255 then 376
      else if code c = 181 then 924
      else code c)"

definition literalI :: "char \<Rightarrow> atom" where
  "literalI l = (\<lambda>c. canonicalize c = canonicalize l, Once)"

definition literal :: "char \<Rightarrow> atom" where
  "literal l = (\<lambda>c. c = l, Once)"

text \<open>\<^verbatim>\<open>[^\s@]\<close>\<close>

definition notSpaceOrAt :: "char \<Rightarrow> bool" where
  "notSpaceOrAt c = (\<not> isWhiteSpace c \<and> c \<noteq> CHR ''@'')"

text \<open>\<^verbatim>\<open>/^[^\s@]+@[^\s@]+\.[^\s@]+$/\<close>\<close>

definition emailRegex :: "atom list" where
  "emailRegex =
     [(notSpaceOrAt, OneOrMore), literal CHR ''@'', (notSpaceOrAt, OneOrMore),
      literal CHR ''.'', (notSpaceOrAt, OneOrMore)]"

text \<open>\<^verbatim>\<open>/add\s*to\s*cart/i\<close>\<close>

definition addToCartRegex :: "atom list" where
  "addToCartRegex =
     [literalI CHR ''a'', literalI CHR ''d'', literalI CHR ''d'', (isWhiteSpace, ZeroOrMore),
      literalI CHR ''t'', literalI CHR ''o'', (isWhiteSpace, ZeroOrMore),
      literalI CHR ''c'', literalI CHR ''a'', literalI CHR ''r'', literalI CHR ''t'']"

section \<open>Configuration\<close>

text \<open>
  A thrown value is an \<^verbatim>\<open>Error\<close> object with its name and message, or another value:
  one that \<^verbatim>\<open>String(err)\<close> turns into the given string, or one on which \<^verbatim>\<open>String(err)\<close>
  itself throws the given value (an object without a usable \<^verbatim>\<open>toString\<close>).
\<close>

datatype thrown = ErrorObject string string | NonError string | Unconvertible thrown

record ValidatedConfig =
  region :: string
  targetUrl :: string
  toEmail :: string
  fromEmail :: string

text \<open>\<^verbatim>\<open>process.env\<close>: a variable is unset or holds a string.\<close>

type_synonym env = "string \<rightharpoonup> string"

text \<open>\<^verbatim>\<open>!v\<close> for a variable of the environment: unset or the empty string.\<close>

fun falsy :: "string option \<Rightarrow> bool" where
  "falsy None = True"
| "falsy (Some s) = (s = [])"

text \<open>\<^verbatim>\<open>v || d\<close>\<close>

fun orElse :: "string option \<Rightarrow> string \<Rightarrow> string" where
  "orElse None d = d"
| "orElse (Some s) d = (if s = [] then d else s)"

text \<open>
  \<^verbatim>\<open>validateEnvironment\<close>. The URL parser of the runtime (\<^verbatim>\<open>new URL(targetUrl)\<close>) is the
  parameter \<open>urlParses\<close>: whether the constructor accepts the string.
\<close>

definition validateEnvironment :: "(string \<Rightarrow> bool) \<Rightarrow> env \<Rightarrow> thrown + ValidatedConfig" where
  "validateEnvironment urlParses e =
     (let region = orElse (e ''AWS_REGION'') (orElse (e ''AWS_DEFAULT_REGION'') ''us-east-1'');
          targetUrl = e ''TARGET_URL'';
          toEmail = e ''TO_EMAIL'';
          fromEmail = e ''FROM_EMAIL''
      in
      if falsy targetUrl then
        Inl (ErrorObject ''Error'' ''TARGET_URL environment variable is required'')
      else if falsy toEmail \<or> falsy fromEmail then
        Inl (ErrorObject ''Error'' ''TO_EMAIL and FROM_EMAIL environment variables are required'')
      else if \<not> urlParses (orElse targetUrl []) then
        Inl (ErrorObject ''Error'' ''TARGET_URL must be a valid URL'')
      else if \<not> testAnchored emailRegex (orElse toEmail []) then
        Inl (ErrorObject ''Error'' ''TO_EMAIL must be a valid email address'')
      else if \<not> testAnchored emailRegex (orElse fromEmail []) then
        Inl (ErrorObject ''Error'' ''FROM_EMAIL must be a valid email address'')
      else
        Inr \<lparr>region = region, targetUrl = orElse targetUrl [],
             toEmail = orElse toEmail [], fromEmail = orElse fromEmail []\<rparr>)"

section \<open>Availability evaluator\<close>

text \<open>
  The markup parser and selector engine is the library \<^verbatim>\<open>cheerio\<close>. What the handler
  reads of a selection is modelled: a selection is the list of matched elements, and an
  element gives its text content, its attributes and whether it matches the selector
  \<^verbatim>\<open>:disabled\<close> (which depends on the element's name and ancestors as well as on its
  attributes, so it is a field of its own). \<^verbatim>\<open>load(html)("#add")\<close> is the parameter
  \<open>select\<close> of the handler below.
\<close>

record element =
  textContent :: string
  attribs :: "string \<rightharpoonup> string"
  matchesDisabled :: bool

type_synonym selection = "element list"

text \<open>\<^verbatim>\<open>el.attr(name)\<close>: the attribute of the first element, undefined on an empty selection.\<close>

fun attr :: "selection \<Rightarrow> string \<Rightarrow> string option" where
  "attr [] name = None"
| "attr (e # es) name = attribs e name"

text \<open>\<^verbatim>\<open>el.text()\<close>: the text contents of the matched elements, joined.\<close>

definition text_of :: "selection \<Rightarrow> string" where
  "text_of el = concat (map textContent el)"

text \<open>\<^verbatim>\<open>el.is(":disabled")\<close>: some matched element matches the selector.\<close>

definition is_disabled :: "selection \<Rightarrow> bool" where
  "is_disabled el = list_ex matchesDisabled el"

definition isElementLocked :: "selection \<Rightarrow> bool" where
  "isElementLocked el =
     (if length el = 0 then True
      else
        (let hasDisabledAttr = (is_disabled el \<or> attr el ''disabled'' \<noteq> None);
             ariaDisabled = (toLowerCase (orElse (attr el ''aria-disabled'') []) = ''true'');
             classStr = toLowerCase (orElse (attr el ''class'') []);
             classIndicatesLocked =
               list_ex (\<lambda>c. includes_str classStr c)
                 [''disabled'', ''soldout'', ''locked'', ''unavailable''];
             dataLocked = (toLowerCase (orElse (attr el ''data-locked'') []) = ''true'')
         in hasDisabledAttr \<or> ariaDisabled \<or> classIndicatesLocked \<or> dataLocked))"

record CheckResult =
  exists :: bool
  text' :: string
  saysAddToCart :: bool
  locked :: bool

text \<open>Lines 171 to 177 of the handler: the check of the selected element.\<close>

definition checkResult :: "selection \<Rightarrow> CheckResult" where
  "checkResult addEl =
     (let exists = (length addEl > 0);
          text = (if exists then trim (text_of addEl) else []);
          saysAddToCart = testSearch addToCartRegex text;
          locked = isElementLocked addEl
      in \<lparr>exists = exists, text' = text, saysAddToCart = saysAddToCart, locked = locked\<rparr>)"

section \<open>Handler\<close>

datatype HandlerResponse =
    HandlerSuccess bool CheckResult
  | HandlerFetchFail string
  | HandlerError string

fun response_ok :: "HandlerResponse \<Rightarrow> bool" where
  "response_ok (HandlerSuccess notified result) = True"
| "response_ok (HandlerFetchFail message) = False"
| "response_ok (HandlerError error) = False"

text \<open>
  An email is its subject and its body. The bodies, and the subject of the stock alert,
  hold characters above U+00FF, so a body is given by its template and the values
  interpolated into it (without the time stamps), and the subject of the stock alert
  by a constructor of its own.
\<close>

datatype email_subject = StockAlertSubject | Subject string

datatype email_body =
    StockAvailableBody string string string
  | ServerErrorBody nat string string
  | CheckFailedBody bool string string string

record email =
  emailSubject :: email_subject
  emailHtml :: email_body

text \<open>
  What the transport answers: \<^verbatim>\<open>res.ok\<close>, \<^verbatim>\<open>res.status\<close>, \<^verbatim>\<open>res.statusText\<close>, and
  the outcome of \<^verbatim>\<open>await res.text()\<close>, which can throw.
\<close>

record http_response =
  ok :: bool
  status :: nat
  statusText :: string
  bodyText :: "thrown + string"

text \<open>
  The world of one invocation: what \<^verbatim>\<open>fetch\<close> does for a URL (it throws, also when the
  25 second timer aborts it, or answers), what \<^verbatim>\<open>ses.send\<close> does for an email (it throws
  or returns a message id), and the clock \<^verbatim>\<open>Date.now()\<close>. Console output is not modelled.
\<close>

record world =
  fetch :: "string \<Rightarrow> thrown + http_response"
  ses_send :: "email \<Rightarrow> thrown + string"
  now :: nat

text \<open>
  \<^verbatim>\<open>sendEmail\<close> takes the emails attempted so far and returns them with the new one
  added, beside the outcome of the send.
\<close>

definition sendEmail :: "world \<Rightarrow> email_subject \<Rightarrow> email_body \<Rightarrow> email list \<Rightarrow> (thrown + string) \<times> email list" where
  "sendEmail w subj body sent =
     (let cmd = \<lparr>emailSubject = subj, emailHtml = body\<rparr>
      in (ses_send w cmd, sent @ [cmd]))"

text \<open>\<^verbatim>\<open>event?.source || `execution-${Date.now()}`\<close>\<close>

definition executionId :: "world \<Rightarrow> string option \<Rightarrow> string" where
  "executionId w source = orElse source (''execution-'' @ numberToString (now w))"

text \<open>
  The body of the \<^verbatim>\<open>try\<close> block: it throws (\<open>Inl\<close>) or returns a response (\<open>Inr\<close>), and
  gives the emails it attempted.
\<close>

definition handler_try ::
  "(string \<Rightarrow> selection) \<Rightarrow> ValidatedConfig \<Rightarrow> world \<Rightarrow> string option
     \<Rightarrow> (thrown + HandlerResponse) \<times> email list" where
  "handler_try select config w source =
     (case fetch w (targetUrl config) of
        Inl err \<Rightarrow> (Inl err, [])
      | Inr res \<Rightarrow>
          if \<not> ok res then
            (let msg = ''HTTP '' @ numberToString (status res) @ '' '' @ statusText res
                        @ '' when fetching '' @ targetUrl config
             in
             if status res \<ge> 500 then
               (case sendEmail w (Subject ''Stock check: Server error detected'')
                       (ServerErrorBody (status res) (statusText res) (targetUrl config)) [] of
                  (Inr sentOk, sent) \<Rightarrow> (Inr (HandlerFetchFail msg), sent)
                | (Inl emailError, sent) \<Rightarrow> (Inr (HandlerFetchFail msg), sent))
             else (Inr (HandlerFetchFail msg), []))
          else
            (case bodyText res of
               Inl err \<Rightarrow> (Inl err, [])
             | Inr html \<Rightarrow>
                 if html = [] \<or> length (trim html) = 0 then
                   (Inr (HandlerFetchFail ''Received empty response from target URL''), [])
                 else
                   (let result = checkResult (select html)
                    in
                    if exists result \<and> saysAddToCart result \<and> \<not> locked result then
                      (case sendEmail w StockAlertSubject
                              (StockAvailableBody (targetUrl config) (text' result)
                                 (executionId w source)) [] of
                         (Inr sentOk, sent) \<Rightarrow> (Inr (HandlerSuccess True result), sent)
                       | (Inl emailError, sent) \<Rightarrow> (Inr (HandlerSuccess False result), sent))
                    else (Inr (HandlerSuccess False result), []))))"

text \<open>
  \<^verbatim>\<open>err instanceof Error ? err.message : String(err)\<close>: the message, or what the
  conversion throws.
\<close>

fun errorMessage :: "thrown \<Rightarrow> thrown + string" where
  "errorMessage (ErrorObject name message) = Inr message"
| "errorMessage (NonError s) = Inr s"
| "errorMessage (Unconvertible t) = Inl t"

fun isAbortError :: "thrown \<Rightarrow> bool" where
  "isAbortError (ErrorObject name message) = (name = ''AbortError'')"
| "isAbortError (NonError s) = False"
| "isAbortError (Unconvertible t) = False"

text \<open>
  The handler: the \<^verbatim>\<open>try\<close> block, and the \<^verbatim>\<open>catch\<close> block for what it throws. The
  conversion of the thrown value to a message stands in the \<^verbatim>\<open>catch\<close> block before the
  inner \<^verbatim>\<open>try\<close>, so what it throws leaves the handler. The result is the response, or
  what the handler throws (\<open>Inl\<close>), and the emails attempted, in order.
\<close>

definition handler ::
  "(string \<Rightarrow> selection) \<Rightarrow> ValidatedConfig \<Rightarrow> world \<Rightarrow> string option
     \<Rightarrow> (thrown + HandlerResponse) \<times> email list" where
  "handler select config w source =
     (case handler_try select config w source of
        (Inr response, sent) \<Rightarrow> (Inr response, sent)
      | (Inl err, sent) \<Rightarrow>
          (case errorMessage err of
             Inl conversionError \<Rightarrow> (Inl conversionError, sent)
           | Inr message \<Rightarrow>
               (let subject = (if isAbortError err then ''Stock check timeout''
                               else ''Stock check system error'')
                in
                case sendEmail w (Subject subject)
                       (CheckFailedBody (isAbortError err) message (targetUrl config)
                          (executionId w source)) sent of
                  (Inr sentOk, sent') \<Rightarrow> (Inr (HandlerError message), sent')
                | (Inl emailError, sent') \<Rightarrow> (Inr (HandlerError message), sent'))))"

section \<open>Vocabulary of the specification\<close>

text \<open>
  Two characters are the same letter when they are equal or are the two cases of one
  ASCII letter; two strings are equal without regard to case when they are so character
  by character.
\<close>

definition sameLetter :: "char \<Rightarrow> char \<Rightarrow> bool" where
  "sameLetter c d =
     (c = d \<or> (65 \<le> code c \<and> code c \<le> 90 \<and> code d = code c + 32)
            \<or> (65 \<le> code d \<and> code d \<le> 90 \<and> code c = code d + 32))"

definition equalsIgnoreCase :: "string \<Rightarrow> string \<Rightarrow> bool" where
  "equalsIgnoreCase a b = list_all2 sameLetter a b"

text \<open>The ASCII letters a..z.\<close>

definition isLowerAscii :: "char \<Rightarrow> bool" where
  "isLowerAscii c = (97 \<le> code c \<and> code c \<le> 122)"

definition containsIgnoreCase :: "string \<Rightarrow> string \<Rightarrow> bool" where
  "containsIgnoreCase s c = (\<exists>p m q. s = p @ m @ q \<and> equalsIgnoreCase m c)"

text \<open>
  The words a pattern matches: an atom matches one character of its class, or a run of
  them; a sequence of atoms matches the concatenation of what its atoms match.
\<close>

fun atomLang :: "atom \<Rightarrow> string \<Rightarrow> bool" where
  "atomLang (p, Once) w = (\<exists>c. w = [c] \<and> p c)"
| "atomLang (p, ZeroOrMore) w = list_all p w"
| "atomLang (p, OneOrMore) w = (w \<noteq> [] \<and> list_all p w)"

fun seqLang :: "atom list \<Rightarrow> string \<Rightarrow> bool" where
  "seqLang [] w = (w = [])"
| "seqLang (a # as) w = (\<exists>u v. w = u @ v \<and> atomLang a u \<and> seqLang as v)"

text \<open>
  The shape \<^verbatim>\<open>local@domain.tld\<close>: three non-empty parts, free of white space and of
  \<^verbatim>\<open>@\<close>, joined by one \<^verbatim>\<open>@\<close> and a dot.
\<close>

definition emailShape :: "string \<Rightarrow> bool" where
  "emailShape s =
     (\<exists>l d t. s = l @ ''@'' @ d @ ''.'' @ t \<and> l \<noteq> [] \<and> d \<noteq> [] \<and> t \<noteq> []
        \<and> list_all notSpaceOrAt l \<and> list_all notSpaceOrAt d \<and> list_all notSpaceOrAt t)"

text \<open>The specification's email check asks for ASCII characters as well.\<close>

definition isAscii :: "char \<Rightarrow> bool" where
  "isAscii c = (code c < 128)"

definition specEmailValid :: "string \<Rightarrow> bool" where
  "specEmailValid s = (list_all isAscii s \<and> emailShape s)"

text \<open>A stand-in for the URL parser in the examples: it accepts what starts with \<^verbatim>\<open>https://\<close>.\<close>

definition httpsOnly :: "string \<Rightarrow> bool" where
  "httpsOnly u = startsWith u ''https://''"

text \<open>
  A body is blank when it is empty or holds white space only; this is what the handler's
  test \<^verbatim>\<open>!html || html.trim().length === 0\<close> decides.
\<close>

definition blank :: "string \<Rightarrow> bool" where
  "blank s = list_all isWhiteSpace s"

text \<open>Whether a promise resolved (rather than rejected).\<close>

fun resolved :: "thrown + 'a \<Rightarrow> bool" where
  "resolved (Inr v) = True"
| "resolved (Inl err) = False"

text \<open>
  The \<^verbatim>\<open>try\<close> block throws \<open>err\<close>: the fetch throws it, or the fetch answers with a
  success status and reading the body throws it.
\<close>

definition throwsIn :: "ValidatedConfig \<Rightarrow> world \<Rightarrow> thrown \<Rightarrow> bool" where
  "throwsIn config w err =
     (case fetch w (targetUrl config) of
        Inl e \<Rightarrow> e = err
      | Inr res \<Rightarrow> ok res \<and> bodyText res = Inl err)"


text \<open>The number a string of decimal digits stands for.\<close>

fun decimalValue :: "string \<Rightarrow> nat" where
  "decimalValue s = foldl (\<lambda>a c. 10 * a + (code c - 48)) 0 s"

text \<open>The validation as the specification words it, with the ASCII requirement.\<close>

definition specRejects :: "(string \<Rightarrow> bool) \<Rightarrow> env \<Rightarrow> bool" where
  "specRejects urlParses e =
     (falsy (e ''TARGET_URL'') \<or> \<not> urlParses (orElse (e ''TARGET_URL'') [])
      \<or> falsy (e ''TO_EMAIL'') \<or> falsy (e ''FROM_EMAIL'')
      \<or> \<not> specEmailValid (orElse (e ''TO_EMAIL'') [])
      \<or> \<not> specEmailValid (orElse (e ''FROM_EMAIL'') []))"

section \<open>Sample inputs\<close>

text \<open>
  Concrete inputs for the examples: a configuration, a world that answers every fetch
  and every send in one given way, a selector stand-in that finds the given elements in
  every page, and the buttons of the test pages.
\<close>

definition sampleConfig :: ValidatedConfig where
  "sampleConfig =
     \<lparr>region = ''us-east-1'', targetUrl = ''https://shop.example/item'',
      toEmail = ''me@shop.example'', fromEmail = ''alerts@shop.example''\<rparr>"

definition mkWorld :: "thrown + http_response \<Rightarrow> thrown + string \<Rightarrow> world" where
  "mkWorld r s = \<lparr>fetch = (\<lambda>url. r), ses_send = (\<lambda>cmd. s), now = 1700000000000\<rparr>"

definition okResponse :: "string \<Rightarrow> http_response" where
  "okResponse html = \<lparr>ok = True, status = 200, statusText = ''OK'', bodyText = Inr html\<rparr>"

definition failResponse :: "nat \<Rightarrow> string \<Rightarrow> http_response" where
  "failResponse n t = \<lparr>ok = False, status = n, statusText = t, bodyText = Inr []\<rparr>"

definition deliveryError :: thrown where
  "deliveryError = ErrorObject ''MessageRejected'' ''Email address is not verified''"

definition constSelect :: "selection \<Rightarrow> string \<Rightarrow> selection" where
  "constSelect el html = el"

definition addButton :: selection where
  "addButton =
     [\<lparr>textContent = '' Add to Cart '', attribs = map_of [(''id'', ''add'')],
       matchesDisabled = False\<rparr>]"

definition soldOutButton :: selection where
  "soldOutButton =
     [\<lparr>textContent = ''Add to Cart'',
       attribs = map_of [(''id'', ''add''), (''class'', ''btn-SoldOut-v2'')],
       matchesDisabled = False\<rparr>]"

section \<open>Strings: facts\<close>

lemma code_inj: "code c = code d \<longleftrightarrow> c = d"
  by (simp add: code_def)

lemma code_lt: "code c < 256"
  by (simp add: code_def)

lemma code_char_of: "code (char_of (n::nat)) = n mod 256"
  by (simp add: code_def)

lemma lowerChar_eq_lower:
  assumes "isLowerAscii d"
  shows "lowerChar c = d \<longleftrightarrow> sameLetter c d"
proof -
  have "lowerChar c = d \<longleftrightarrow> code (lowerChar c) = code d"
    by (simp add: code_inj)
  also have "\<dots> \<longleftrightarrow> (code c = code d \<or> (65 \<le> code c \<and> code c \<le> 90 \<and> code d = code c + 32))"
    using code_lt[of c] assms by (auto simp: lowerChar_def code_char_of isLowerAscii_def)
  also have "\<dots> \<longleftrightarrow> sameLetter c d"
    using assms by (auto simp: sameLetter_def isLowerAscii_def code_inj)
  finally show ?thesis .
qed

lemma canonicalize_eq_lower:
  assumes "isLowerAscii d"
  shows "canonicalize c = canonicalize d \<longleftrightarrow> sameLetter c d"
proof -
  have d: "canonicalize d = code d - 32"
    using assms by (simp add: canonicalize_def isLowerAscii_def)
  have "canonicalize c = code d - 32 \<longleftrightarrow> (code c = code d \<or> (65 \<le> code c \<and> code c \<le> 90 \<and> code d = code c + 32))"
    using code_lt[of c] assms by (auto simp: canonicalize_def isLowerAscii_def)
  also have "\<dots> \<longleftrightarrow> sameLetter c d"
    using assms by (auto simp: sameLetter_def isLowerAscii_def code_inj)
  finally show ?thesis by (simp add: d)
qed

lemma toLowerCase_eq_lower:
  "list_all isLowerAscii n \<Longrightarrow> toLowerCase v = n \<longleftrightarrow> equalsIgnoreCase v n"
proof (induction n arbitrary: v)
  case Nil
  then show ?case by (simp add: toLowerCase_def equalsIgnoreCase_def)
next
  case (Cons d n)
  then show ?case
    by (cases v) (auto simp: toLowerCase_def equalsIgnoreCase_def lowerChar_eq_lower)
qed

lemma startsWith_iff: "startsWith s c \<longleftrightarrow> (\<exists>q. s = c @ q)"
  by (induction s c rule: startsWith.induct) auto

lemma includes_str_iff: "includes_str s c \<longleftrightarrow> (\<exists>p q. s = p @ c @ q)"
proof (induction s)
  case Nil
  then show ?case by auto
next
  case (Cons x xs)
  show ?case
  proof
    assume "includes_str (x # xs) c"
    then consider "startsWith (x # xs) c" | "includes_str xs c" by auto
    then show "\<exists>p q. x # xs = p @ c @ q"
    proof cases
      case 1
      then obtain q where "x # xs = c @ q" by (auto simp: startsWith_iff)
      then have "x # xs = [] @ c @ q" by simp
      then show ?thesis by blast
    next
      case 2
      then obtain p q where "xs = p @ c @ q" using Cons.IH by auto
      then have "x # xs = (x # p) @ c @ q" by simp
      then show ?thesis by blast
    qed
  next
    assume "\<exists>p q. x # xs = p @ c @ q"
    then obtain p q where pq: "x # xs = p @ c @ q" by auto
    show "includes_str (x # xs) c"
    proof (cases p)
      case Nil
      with pq have "\<exists>q. x # xs = c @ q" by simp
      then have "startsWith (x # xs) c" by (simp only: startsWith_iff)
      then show ?thesis by simp
    next
      case (Cons y ys)
      with pq have "xs = ys @ c @ q" by simp
      then show ?thesis using Cons.IH by auto
    qed
  qed
qed

lemma eat_iff: "r \<in> set (eat p s) \<longleftrightarrow> (\<exists>w. s = w @ r \<and> list_all p w)"
proof (induction s)
  case Nil
  then show ?case by auto
next
  case (Cons c cs)
  show ?case
  proof
    assume "r \<in> set (eat p (c # cs))"
    then consider "r = c # cs" | "p c" "r \<in> set (eat p cs)" by (auto split: if_splits)
    then show "\<exists>w. c # cs = w @ r \<and> list_all p w"
    proof cases
      case 1
      then have "c # cs = [] @ r \<and> list_all p []" by simp
      then show ?thesis by blast
    next
      case 2
      then obtain w where "cs = w @ r" "list_all p w" using Cons.IH by auto
      with 2 have "c # cs = (c # w) @ r \<and> list_all p (c # w)" by simp
      then show ?thesis by blast
    qed
  next
    assume "\<exists>w. c # cs = w @ r \<and> list_all p w"
    then obtain w where w: "c # cs = w @ r" "list_all p w" by auto
    show "r \<in> set (eat p (c # cs))"
    proof (cases w)
      case Nil
      with w have r: "r = c # cs" by simp
      show ?thesis unfolding r by simp
    next
      case (Cons y ys)
      with w have "p c" "cs = ys @ r" "list_all p ys" by auto
      then show ?thesis using Cons.IH by auto
    qed
  qed
qed

lemma step_Once_iff: "r \<in> set (step (p, Once) s) \<longleftrightarrow> (\<exists>c. s = c # r \<and> p c)"
  by (cases s) auto

lemma step_OneOrMore_iff:
  "r \<in> set (step (p, OneOrMore) s) \<longleftrightarrow> (\<exists>c w. s = c # w @ r \<and> p c \<and> list_all p w)"
  by (cases s) (auto simp: eat_iff)

lemma run_Cons_iff: "r \<in> set (run (a # as) s) \<longleftrightarrow> (\<exists>m \<in> set (step a s). r \<in> set (run as m))"
  by auto

lemma tails_iff: "t \<in> set (tails s) \<longleftrightarrow> (\<exists>p. s = p @ t)"
proof (induction s)
  case Nil
  then show ?case by auto
next
  case (Cons c cs)
  show ?case
  proof
    assume "t \<in> set (tails (c # cs))"
    then consider "t = c # cs" | "t \<in> set (tails cs)" by auto
    then show "\<exists>p. c # cs = p @ t"
    proof cases
      case 1
      then have "c # cs = [] @ t" by simp
      then show ?thesis by blast
    next
      case 2
      then obtain p where "cs = p @ t" using Cons.IH by auto
      then have "c # cs = (c # p) @ t" by simp
      then show ?thesis by blast
    qed
  next
    assume "\<exists>p. c # cs = p @ t"
    then obtain p where p: "c # cs = p @ t" by auto
    show "t \<in> set (tails (c # cs))"
    proof (cases p)
      case Nil
      with p have t: "t = c # cs" by simp
      show ?thesis unfolding t by simp
    next
      case (Cons y ys)
      with p have "cs = ys @ t" by simp
      then show ?thesis using Cons.IH by auto
    qed
  qed
qed

lemma dropWhile_all_iff: "list_all P (dropWhile P s) \<longleftrightarrow> list_all P s"
  by (induction s) auto

lemma trim_empty_iff: "trim s = [] \<longleftrightarrow> list_all isWhiteSpace s"
proof -
  have "trim s = [] \<longleftrightarrow> list_all isWhiteSpace (dropWhile isWhiteSpace s)"
    by (simp add: trim_def dropWhile_eq_Nil_conv list_all_iff)
  then show ?thesis by (simp add: dropWhile_all_iff)
qed

section \<open>Regular expressions: the matcher computes the language\<close>

lemma step_iff: "r \<in> set (step a s) \<longleftrightarrow> (\<exists>w. s = w @ r \<and> atomLang a w)"
proof (cases a)
  case (Pair p q)
  show ?thesis
  proof (cases q)
    case Once
    have "(\<exists>c. s = c # r \<and> p c) \<longleftrightarrow> (\<exists>w. s = w @ r \<and> (\<exists>c. w = [c] \<and> p c))"
      by auto
    with Pair Once show ?thesis by (simp add: step_Once_iff)
  next
    case ZeroOrMore
    with Pair show ?thesis by (simp add: eat_iff)
  next
    case OneOrMore
    have "(\<exists>c w. s = c # w @ r \<and> p c \<and> list_all p w) \<longleftrightarrow> (\<exists>w. s = w @ r \<and> w \<noteq> [] \<and> list_all p w)"
    proof
      assume "\<exists>c w. s = c # w @ r \<and> p c \<and> list_all p w"
      then obtain c w where "s = (c # w) @ r \<and> c # w \<noteq> [] \<and> list_all p (c # w)" by auto
      then show "\<exists>w. s = w @ r \<and> w \<noteq> [] \<and> list_all p w" by blast
    next
      assume "\<exists>w. s = w @ r \<and> w \<noteq> [] \<and> list_all p w"
      then obtain w where w: "s = w @ r" "w \<noteq> []" "list_all p w" by auto
      then obtain c w' where "w = c # w'" by (cases w) auto
      with w show "\<exists>c w. s = c # w @ r \<and> p c \<and> list_all p w" by auto
    qed
    with Pair OneOrMore show ?thesis by (simp add: step_OneOrMore_iff)
  qed
qed

lemma run_iff: "r \<in> set (run as s) \<longleftrightarrow> (\<exists>w. s = w @ r \<and> seqLang as w)"
proof (induction as arbitrary: s)
  case Nil
  then show ?case by auto
next
  case (Cons a as)
  show ?case
  proof
    assume "r \<in> set (run (a # as) s)"
    then obtain m where m: "m \<in> set (step a s)" "r \<in> set (run as m)" by auto
    from m(1) obtain u where u: "s = u @ m" "atomLang a u" by (auto simp: step_iff)
    from m(2) obtain v where v: "m = v @ r" "seqLang as v" using Cons.IH by auto
    from u v have "s = (u @ v) @ r \<and> seqLang (a # as) (u @ v)" by auto
    then show "\<exists>w. s = w @ r \<and> seqLang (a # as) w" by blast
  next
    assume "\<exists>w. s = w @ r \<and> seqLang (a # as) w"
    then obtain u v where uv: "s = (u @ v) @ r" "atomLang a u" "seqLang as v" by auto
    then have "v @ r \<in> set (step a s)" by (auto simp: step_iff)
    moreover have "r \<in> set (run as (v @ r))" using uv Cons.IH by auto
    ultimately show "r \<in> set (run (a # as) s)" by auto
  qed
qed

lemma testAnchored_iff: "testAnchored r s \<longleftrightarrow> seqLang r s"
  by (simp add: testAnchored_def run_iff)

lemma testSearch_iff: "testSearch r s \<longleftrightarrow> (\<exists>pre m post. s = pre @ m @ post \<and> seqLang r m)"
proof
  assume "testSearch r s"
  then obtain t where t: "t \<in> set (tails s)" "run r t \<noteq> []"
    by (auto simp: testSearch_def list_ex_iff)
  then obtain post where "post \<in> set (run r t)" by (cases "run r t") auto
  then obtain m where m: "t = m @ post" "seqLang r m" by (auto simp: run_iff)
  from t(1) obtain pre where "s = pre @ t" by (auto simp: tails_iff)
  with m show "\<exists>pre m post. s = pre @ m @ post \<and> seqLang r m" by blast
next
  assume "\<exists>pre m post. s = pre @ m @ post \<and> seqLang r m"
  then obtain pre m post where pm: "s = pre @ m @ post" "seqLang r m" by auto
  then have "m @ post \<in> set (tails s)" by (auto simp: tails_iff)
  moreover have "post \<in> set (run r (m @ post))" using pm by (auto simp: run_iff)
  then have "run r (m @ post) \<noteq> []" by auto
  ultimately show "testSearch r s" by (auto simp: testSearch_def list_ex_iff)
qed

lemma emailRegex_iff: "testAnchored emailRegex s \<longleftrightarrow> emailShape s"
  unfolding testAnchored_iff emailRegex_def literal_def emailShape_def
  by (simp del: append_eq_append_conv2) blast

lemma seqLang_append:
  "seqLang (as @ bs) w \<longleftrightarrow> (\<exists>u v. w = u @ v \<and> seqLang as u \<and> seqLang bs v)"
proof (induction as arbitrary: w)
  case Nil
  then show ?case by simp
next
  case (Cons a as)
  show ?case
  proof
    assume "seqLang ((a # as) @ bs) w"
    then obtain x y where xy: "w = x @ y" "atomLang a x" "seqLang (as @ bs) y" by auto
    then obtain u v where uv: "y = u @ v" "seqLang as u" "seqLang bs v" using Cons.IH by auto
    from xy uv have "w = (x @ u) @ v \<and> seqLang (a # as) (x @ u) \<and> seqLang bs v" by auto
    then show "\<exists>u v. w = u @ v \<and> seqLang (a # as) u \<and> seqLang bs v" by blast
  next
    assume "\<exists>u v. w = u @ v \<and> seqLang (a # as) u \<and> seqLang bs v"
    then obtain u v where uv: "w = u @ v" "seqLang (a # as) u" "seqLang bs v" by auto
    then obtain x y where xy: "u = x @ y" "atomLang a x" "seqLang as y" by auto
    from uv xy have "seqLang (as @ bs) (y @ v)" using Cons.IH by auto
    with uv xy have "w = x @ (y @ v) \<and> atomLang a x \<and> seqLang (as @ bs) (y @ v)" by simp
    then show "seqLang ((a # as) @ bs) w" by (simp del: append_assoc) blast
  qed
qed

lemma atomLang_literalI:
  "isLowerAscii d \<Longrightarrow> atomLang (literalI d) u \<longleftrightarrow> (\<exists>c. u = [c] \<and> sameLetter c d)"
  by (simp add: literalI_def canonicalize_eq_lower)

lemma seqLang_literals:
  "list_all isLowerAscii n \<Longrightarrow> seqLang (map literalI n) w \<longleftrightarrow> equalsIgnoreCase w n"
proof (induction n arbitrary: w)
  case Nil
  then show ?case by (simp add: equalsIgnoreCase_def)
next
  case (Cons d n)
  then have d: "isLowerAscii d" and n: "list_all isLowerAscii n" by auto
  have "seqLang (map literalI (d # n)) w \<longleftrightarrow>
          (\<exists>u v. w = u @ v \<and> (\<exists>c. u = [c] \<and> sameLetter c d) \<and> equalsIgnoreCase v n)"
    using Cons.IH[OF n] by (simp add: atomLang_literalI[OF d])
  also have "\<dots> \<longleftrightarrow> (\<exists>c v. w = c # v \<and> sameLetter c d \<and> equalsIgnoreCase v n)"
  proof
    assume "\<exists>u v. w = u @ v \<and> (\<exists>c. u = [c] \<and> sameLetter c d) \<and> equalsIgnoreCase v n"
    then show "\<exists>c v. w = c # v \<and> sameLetter c d \<and> equalsIgnoreCase v n" by auto
  next
    assume "\<exists>c v. w = c # v \<and> sameLetter c d \<and> equalsIgnoreCase v n"
    then obtain c v where "w = [c] @ v \<and> (\<exists>c'. [c] = [c'] \<and> sameLetter c' d) \<and> equalsIgnoreCase v n"
      by auto
    then show "\<exists>u v. w = u @ v \<and> (\<exists>c. u = [c] \<and> sameLetter c d) \<and> equalsIgnoreCase v n"
      by blast
  qed
  also have "\<dots> \<longleftrightarrow> equalsIgnoreCase w (d # n)"
    by (auto simp: equalsIgnoreCase_def list_all2_Cons2)
  finally show ?case .
qed

lemma seqLang_spaces: "seqLang [(isWhiteSpace, ZeroOrMore)] w \<longleftrightarrow> list_all isWhiteSpace w"
  by simp

lemma addToCartRegex_split:
  "addToCartRegex =
     map literalI ''add'' @ [(isWhiteSpace, ZeroOrMore)] @ map literalI ''to''
       @ [(isWhiteSpace, ZeroOrMore)] @ map literalI ''cart''"
  by (simp add: addToCartRegex_def)

lemma lower_add: "list_all isLowerAscii ''add''"
  by (simp add: isLowerAscii_def code_def)

lemma lower_to: "list_all isLowerAscii ''to''"
  by (simp add: isLowerAscii_def code_def)

lemma lower_cart: "list_all isLowerAscii ''cart''"
  by (simp add: isLowerAscii_def code_def)

lemma seqLang_addToCart:
  "seqLang addToCartRegex m \<longleftrightarrow>
     (\<exists>a w1 t w2 c. m = a @ w1 @ t @ w2 @ c
        \<and> equalsIgnoreCase a ''add'' \<and> list_all isWhiteSpace w1
        \<and> equalsIgnoreCase t ''to'' \<and> list_all isWhiteSpace w2
        \<and> equalsIgnoreCase c ''cart'')"
proof -
  have "seqLang addToCartRegex m \<longleftrightarrow>
     (\<exists>a r1. m = a @ r1 \<and> equalsIgnoreCase a ''add''
        \<and> (\<exists>w1 r2. r1 = w1 @ r2 \<and> list_all isWhiteSpace w1
        \<and> (\<exists>t r3. r2 = t @ r3 \<and> equalsIgnoreCase t ''to''
        \<and> (\<exists>w2 c. r3 = w2 @ c \<and> list_all isWhiteSpace w2 \<and> equalsIgnoreCase c ''cart''))))"
    by (simp only: addToCartRegex_split seqLang_append seqLang_literals[OF lower_add]
          seqLang_literals[OF lower_to] seqLang_literals[OF lower_cart] seqLang_spaces)
  also have "\<dots> \<longleftrightarrow> (\<exists>a w1 t w2 c. m = a @ w1 @ t @ w2 @ c
        \<and> equalsIgnoreCase a ''add'' \<and> list_all isWhiteSpace w1
        \<and> equalsIgnoreCase t ''to'' \<and> list_all isWhiteSpace w2
        \<and> equalsIgnoreCase c ''cart'')"
    by blast
  finally show ?thesis .
qed

lemma addToCart_test_iff:
  "testSearch addToCartRegex s \<longleftrightarrow>
     (\<exists>pre a w1 t w2 c post. s = pre @ a @ w1 @ t @ w2 @ c @ post
        \<and> equalsIgnoreCase a ''add'' \<and> list_all isWhiteSpace w1
        \<and> equalsIgnoreCase t ''to'' \<and> list_all isWhiteSpace w2
        \<and> equalsIgnoreCase c ''cart'')"
proof
  assume "testSearch addToCartRegex s"
  then obtain pre m post where m: "s = pre @ m @ post" "seqLang addToCartRegex m"
    by (auto simp: testSearch_iff)
  from m(2) obtain a w1 t w2 c where c: "m = a @ w1 @ t @ w2 @ c"
      "equalsIgnoreCase a ''add''" "list_all isWhiteSpace w1"
      "equalsIgnoreCase t ''to''" "list_all isWhiteSpace w2" "equalsIgnoreCase c ''cart''"
    unfolding seqLang_addToCart by blast
  from m(1) c(1) have "s = pre @ a @ w1 @ t @ w2 @ c @ post" by simp
  with c show "\<exists>pre a w1 t w2 c post. s = pre @ a @ w1 @ t @ w2 @ c @ post
        \<and> equalsIgnoreCase a ''add'' \<and> list_all isWhiteSpace w1
        \<and> equalsIgnoreCase t ''to'' \<and> list_all isWhiteSpace w2
        \<and> equalsIgnoreCase c ''cart''" by blast
next
  assume "\<exists>pre a w1 t w2 c post. s = pre @ a @ w1 @ t @ w2 @ c @ post
        \<and> equalsIgnoreCase a ''add'' \<and> list_all isWhiteSpace w1
        \<and> equalsIgnoreCase t ''to'' \<and> list_all isWhiteSpace w2
        \<and> equalsIgnoreCase c ''cart''"
  then obtain pre a w1 t w2 c post where c: "s = pre @ a @ w1 @ t @ w2 @ c @ post"
      "equalsIgnoreCase a ''add''" "list_all isWhiteSpace w1"
      "equalsIgnoreCase t ''to''" "list_all isWhiteSpace w2" "equalsIgnoreCase c ''cart''"
    by blast
  then have "seqLang addToCartRegex (a @ w1 @ t @ w2 @ c)"
    unfolding seqLang_addToCart by blast
  moreover from c(1) have "s = pre @ (a @ w1 @ t @ w2 @ c) @ post" by simp
  ultimately show "testSearch addToCartRegex s"
    unfolding testSearch_iff by blast
qed

section \<open>Decimal rendering\<close>

lemma numberToString_numeral:
  "numberToString (numeral k) =
     (if (numeral k :: nat) < 10 then [''0123456789'' ! numeral k]
      else numberToString (numeral k div 10) @ [''0123456789'' ! (numeral k mod 10)])"
  by (rule numberToString.simps)

lemma digit_cases: "d < (10::nat) \<Longrightarrow> d \<in> {0, 1, 2, 3, 4, 5, 6, 7, 8, 9}"
  by (simp add: numeral_eq_Suc less_Suc_eq) 

lemma digit_code: "d < 10 \<Longrightarrow> code (''0123456789'' ! d) = 48 + d"
  using digit_cases[of d] by (auto simp: code_def)

lemma numberToString_value: "decimalValue (numberToString n) = n"
proof (induction n rule: numberToString.induct)
  case (1 n)
  show ?case
  proof (cases "n < 10")
    case True
    then show ?thesis by (subst numberToString.simps) (simp add: digit_code)
  next
    case False
    have "code (''0123456789'' ! (n mod 10)) = 48 + n mod 10"
      by (rule digit_code) simp
    with False 1 show ?thesis
      by (subst numberToString.simps) simp
  qed
qed

section \<open>The evaluator: facts\<close>

lemma lower_true: "list_all isLowerAscii ''true''"
  by (simp add: isLowerAscii_def code_def)

lemma attr_equals_true:
  "toLowerCase (orElse a []) = ''true'' \<longleftrightarrow> (\<exists>v. a = Some v \<and> equalsIgnoreCase v ''true'')"
proof (cases a)
  case None
  then show ?thesis by (simp add: toLowerCase_def)
next
  case (Some v)
  have "toLowerCase (orElse (Some v) []) = ''true'' \<longleftrightarrow> toLowerCase v = ''true''"
    by (simp add: toLowerCase_def)
  with Some show ?thesis by (simp add: toLowerCase_eq_lower[OF lower_true])
qed

lemma includes_lower_iff:
  assumes "list_all isLowerAscii n"
  shows "includes_str (toLowerCase s) n \<longleftrightarrow> containsIgnoreCase s n"
proof
  assume "includes_str (toLowerCase s) n"
  then obtain p q where "map lowerChar s = p @ n @ q"
    by (auto simp: includes_str_iff toLowerCase_def)
  then have "\<exists>us vs. s = us @ vs \<and> p = map lowerChar us \<and> n @ q = map lowerChar vs"
    by (simp add: map_eq_append_conv)
  then obtain p' r where r: "s = p' @ r" "n @ q = map lowerChar r" by blast
  from r(2) have "\<exists>us vs. r = us @ vs \<and> n = map lowerChar us \<and> q = map lowerChar vs"
    by (simp add: append_eq_map_conv)
  then obtain m q' where "r = m @ q'" "n = map lowerChar m" by blast
  with r have m: "s = p' @ m @ q'" "map lowerChar m = n" by simp_all
  then have "equalsIgnoreCase m n"
    using toLowerCase_eq_lower[OF assms, of m] by (simp add: toLowerCase_def)
  with m show "containsIgnoreCase s n" unfolding containsIgnoreCase_def by blast
next
  assume "containsIgnoreCase s n"
  then obtain p m q where m: "s = p @ m @ q" "equalsIgnoreCase m n"
    unfolding containsIgnoreCase_def by blast
  then have "toLowerCase m = n" using toLowerCase_eq_lower[OF assms, of m] by simp
  with m have "toLowerCase s = toLowerCase p @ n @ toLowerCase q"
    by (simp add: toLowerCase_def)
  then show "includes_str (toLowerCase s) n" unfolding includes_str_iff by blast
qed

lemma class_words_lower:
  "list_all (list_all isLowerAscii) [''disabled'', ''soldout'', ''locked'', ''unavailable'']"
  by (simp add: isLowerAscii_def code_def)

lemma containsIgnoreCase_Nil: "containsIgnoreCase [] n \<longleftrightarrow> n = []"
  by (auto simp: containsIgnoreCase_def equalsIgnoreCase_def)

lemma class_indicates_locked:
  "list_ex (\<lambda>c. includes_str (toLowerCase (orElse a [])) c)
       [''disabled'', ''soldout'', ''locked'', ''unavailable''] \<longleftrightarrow>
   (\<exists>cls. a = Some cls \<and> (containsIgnoreCase cls ''disabled'' \<or> containsIgnoreCase cls ''soldout''
       \<or> containsIgnoreCase cls ''locked'' \<or> containsIgnoreCase cls ''unavailable''))"
proof (cases a)
  case None
  then show ?thesis by (simp add: toLowerCase_def)
next
  case (Some cls)
  show ?thesis
  proof (cases "cls = []")
    case True
    with Some show ?thesis by (simp add: toLowerCase_def containsIgnoreCase_Nil)
  next
    case False
    then have "orElse (Some cls) [] = cls" by simp
    with Some show ?thesis
      using class_words_lower by (simp add: includes_lower_iff)
  qed
qed

lemma saysAddToCart_test:
  "saysAddToCart (checkResult el) = testSearch addToCartRegex (text' (checkResult el))"
  by (simp add: checkResult_def Let_def)

lemma text_checkResult: "text' (checkResult el) = (if el = [] then [] else trim (text_of el))"
  by (simp add: checkResult_def Let_def)

lemma test_Add_to_Cart: "testSearch addToCartRegex ''Add to Cart''"
  by code_simp

lemma test_ADD_TO_CART: "testSearch addToCartRegex ''ADD  TO CART''"
  by code_simp

lemma test_addtocart: "testSearch addToCartRegex ''addtocart''"
  by code_simp

lemma test_Sold_Out: "\<not> testSearch addToCartRegex ''Sold Out''"
  by code_simp

lemma test_empty: "\<not> testSearch addToCartRegex []"
  by code_simp

lemma checkResult_Nil:
  "checkResult [] = \<lparr>exists = False, text' = [], saysAddToCart = False, locked = True\<rparr>"
  using test_empty by (simp add: checkResult_def isElementLocked_def)

section \<open>The handler: its paths\<close>

lemma empty_check_iff: "(html = [] \<or> length (trim html) = 0) \<longleftrightarrow> blank html"
  by (auto simp: trim_empty_iff blank_def)

lemma handler_try_fetch_throws:
  "fetch w (targetUrl config) = Inl err \<Longrightarrow> handler_try select config w source = (Inl err, [])"
  by (simp add: handler_try_def)

lemma handler_try_not_ok:
  "fetch w (targetUrl config) = Inr res \<Longrightarrow> \<not> ok res \<Longrightarrow>
   handler_try select config w source =
     (Inr (HandlerFetchFail (''HTTP '' @ numberToString (status res) @ '' '' @ statusText res
             @ '' when fetching '' @ targetUrl config)),
      if status res \<ge> 500
      then [\<lparr>emailSubject = Subject ''Stock check: Server error detected'',
             emailHtml = ServerErrorBody (status res) (statusText res) (targetUrl config)\<rparr>]
      else [])"
  by (simp add: handler_try_def sendEmail_def Let_def split: sum.splits)

lemma handler_try_body_throws:
  "fetch w (targetUrl config) = Inr res \<Longrightarrow> ok res \<Longrightarrow> bodyText res = Inl err \<Longrightarrow>
   handler_try select config w source = (Inl err, [])"
  by (simp add: handler_try_def)

lemma handler_try_blank:
  "fetch w (targetUrl config) = Inr res \<Longrightarrow> ok res \<Longrightarrow> bodyText res = Inr html \<Longrightarrow> blank html \<Longrightarrow>
   handler_try select config w source =
     (Inr (HandlerFetchFail ''Received empty response from target URL''), [])"
  using empty_check_iff[of html] by (simp add: handler_try_def)

lemma handler_try_checked:
  "fetch w (targetUrl config) = Inr res \<Longrightarrow> ok res \<Longrightarrow> bodyText res = Inr html \<Longrightarrow> \<not> blank html \<Longrightarrow>
   handler_try select config w source =
     (let r = checkResult (select html);
          mail = \<lparr>emailSubject = StockAlertSubject,
                  emailHtml = StockAvailableBody (targetUrl config) (text' r) (executionId w source)\<rparr>
      in if exists r \<and> saysAddToCart r \<and> \<not> locked r
         then (Inr (HandlerSuccess (resolved (ses_send w mail)) r), [mail])
         else (Inr (HandlerSuccess False r), []))"
  using empty_check_iff[of html]
  by (simp add: handler_try_def sendEmail_def Let_def split: sum.splits)

lemma handler_of_response:
  "handler_try select config w source = (Inr response, sent) \<Longrightarrow>
   handler select config w source = (Inr response, sent)"
  by (simp add: handler_def)



lemma handler_success_result:
  assumes "fetch w (targetUrl config) = Inr res" and "ok res" and "bodyText res = Inr html"
    and "\<not> blank html"
  shows "\<exists>n. fst (handler select config w source)
               = Inr (HandlerSuccess n (checkResult (select html)))"
proof (cases "exists (checkResult (select html)) \<and> saysAddToCart (checkResult (select html))
                \<and> \<not> locked (checkResult (select html))")
  case True
  then have "\<exists>n sent. handler_try select config w source
                = (Inr (HandlerSuccess n (checkResult (select html))), sent)"
    using handler_try_checked[OF assms, of select source] by (simp add: Let_def)
  then obtain n sent where "handler select config w source
                = (Inr (HandlerSuccess n (checkResult (select html))), sent)"
    using handler_of_response by blast
  then have "fst (handler select config w source)
                = Inr (HandlerSuccess n (checkResult (select html)))"
    by simp
  then show ?thesis by blast
next
  case False
  then have "handler_try select config w source
                = (Inr (HandlerSuccess False (checkResult (select html))), [])"
    using handler_try_checked[OF assms, of select source] by (simp add: Let_def)
  then have "handler select config w source
                = (Inr (HandlerSuccess False (checkResult (select html))), [])"
    by (rule handler_of_response)
  then have "fst (handler select config w source)
                = Inr (HandlerSuccess False (checkResult (select html)))"
    by simp
  then show ?thesis by blast
qed










lemma throwsIn_excludes_answer:
  "throwsIn config w err \<Longrightarrow> fetch w (targetUrl config) = Inr res \<Longrightarrow>
   ok res \<and> bodyText res = Inl err"
  by (simp add: throwsIn_def)




section \<open>Configuration: facts\<close>

lemma falsy_iff: "falsy v \<longleftrightarrow> v = None \<or> v = Some []"
  by (cases v) auto

lemma not_falsy_orElse: "\<not> falsy v \<Longrightarrow> v = Some (orElse v d)"
  by (cases v) auto

lemma emailShape_nonempty: "emailShape s \<Longrightarrow> s \<noteq> []"
  by (auto simp: emailShape_def)

lemma falsy_unset: "e k = Some [] \<Longrightarrow> falsy ((e(k := None)) k') = falsy (e k')"
  by (cases "k' = k") auto

lemma orElse_unset: "e k = Some [] \<Longrightarrow> orElse ((e(k := None)) k') d = orElse (e k') d"
  by (cases "k' = k") auto

lemma validate_unset:
  "e k = Some [] \<Longrightarrow> validateEnvironment urlParses (e(k := None)) = validateEnvironment urlParses e"
  unfolding validateEnvironment_def Let_def
  by (simp only: falsy_unset orElse_unset)

lemma orElse_falsy: "falsy v \<Longrightarrow> orElse v d = d"
  by (cases v) auto

section \<open>Claims\<close>

text \<open>
  Claim C1. When the fetch answers with a success status and a body that is not blank,
  the handler returns the Success variant carrying the check result of the page. The
  stock alert is attempted exactly when the result has \<open>exists\<close>, \<open>saysAddToCart\<close> and not
  \<open>locked\<close>; it is then the only email, and \<open>notified\<close> tells whether the send resolved,
  so a failed send gives Success with \<open>notified = False\<close>. In every other combination
  of the flags no email is attempted and \<open>notified\<close> is \<open>False\<close>.
\<close>

theorem stock_notification_decision:
  assumes "fetch w (targetUrl config) = Inr res" and "ok res" and "bodyText res = Inr html"
    and "\<not> blank html"
  shows "handler select config w source =
     (let r = checkResult (select html);
          mail = \<lparr>emailSubject = StockAlertSubject,
                  emailHtml = StockAvailableBody (targetUrl config) (text' r) (executionId w source)\<rparr>
      in if exists r \<and> saysAddToCart r \<and> \<not> locked r
         then (Inr (HandlerSuccess (resolved (ses_send w mail)) r), [mail])
         else (Inr (HandlerSuccess False r), []))"
proof -
  let ?r = "checkResult (select html)"
  show ?thesis
  proof (cases "exists ?r \<and> saysAddToCart ?r \<and> \<not> locked ?r")
    case True
    then show ?thesis
      using handler_try_checked[OF assms, of select source]
      by (simp add: Let_def handler_of_response)
  next
    case False
    then show ?thesis
      using handler_try_checked[OF assms, of select source]
      by (simp add: Let_def handler_of_response)
  qed
qed

text \<open>
  The page of the first test, with a send that is rejected: Success, not notified, one
  email attempted.
\<close>

theorem stock_notification_decision_witness:
  "handler (constSelect addButton) sampleConfig
     (mkWorld (Inr (okResponse ''<button id=add> Add to Cart </button>'')) (Inl deliveryError)) None
   = (Inr (HandlerSuccess False
        \<lparr>exists = True, text' = ''Add to Cart'', saysAddToCart = True, locked = False\<rparr>),
      [\<lparr>emailSubject = StockAlertSubject,
        emailHtml = StockAvailableBody ''https://shop.example/item'' ''Add to Cart''
                      ''execution-1700000000000''\<rparr>])"
proof -
  let ?html = "''<button id=add> Add to Cart </button>''"
  let ?w = "mkWorld (Inr (okResponse ?html)) (Inl deliveryError)"
  have f: "fetch ?w (targetUrl sampleConfig) = Inr (okResponse ?html)"
    by (simp add: mkWorld_def)
  have o: "ok (okResponse ?html)"
    by (simp add: okResponse_def)
  have b: "bodyText (okResponse ?html) = Inr ?html"
    by (simp add: okResponse_def)
  have n: "\<not> blank ?html"
    by (simp add: blank_def isWhiteSpace_def code_def)
  have r: "checkResult (constSelect addButton ?html)
             = \<lparr>exists = True, text' = ''Add to Cart'', saysAddToCart = True, locked = False\<rparr>"
    by code_simp
  have x: "executionId ?w None = ''execution-1700000000000''"
    by (simp add: executionId_def mkWorld_def numberToString_numeral)
  have s: "\<not> resolved (ses_send ?w m)" for m
    by (simp add: mkWorld_def)
  have u: "targetUrl sampleConfig = ''https://shop.example/item''"
    by (simp add: sampleConfig_def)
  show ?thesis
    using stock_notification_decision[OF f o b n, of "constSelect addButton" None]
    by (simp add: r x s u Let_def)
qed

text \<open>
  Claim C2. The flag \<open>locked\<close> of the check result holds exactly when no element was
  found, or an element of the selection matches \<^verbatim>\<open>:disabled\<close> or the found element has
  the attribute \<^verbatim>\<open>disabled\<close>, or its \<^verbatim>\<open>aria-disabled\<close> equals "true" without regard to
  case, or its \<^verbatim>\<open>class\<close> contains one of the words disabled, soldout, locked, unavailable
  as a substring without regard to case, or its \<^verbatim>\<open>data-locked\<close> equals "true" without
  regard to case. Attributes are read from the first element of the selection.
\<close>

theorem locked_flag_characterisation:
  "locked (checkResult el) \<longleftrightarrow>
     el = []
     \<or> is_disabled el \<or> attr el ''disabled'' \<noteq> None
     \<or> (\<exists>v. attr el ''aria-disabled'' = Some v \<and> equalsIgnoreCase v ''true'')
     \<or> (\<exists>cls. attr el ''class'' = Some cls
           \<and> (containsIgnoreCase cls ''disabled'' \<or> containsIgnoreCase cls ''soldout''
              \<or> containsIgnoreCase cls ''locked'' \<or> containsIgnoreCase cls ''unavailable''))
     \<or> (\<exists>v. attr el ''data-locked'' = Some v \<and> equalsIgnoreCase v ''true'')"
proof -
  have "locked (checkResult el) = isElementLocked el"
    by (simp add: checkResult_def Let_def)
  then show ?thesis
    unfolding isElementLocked_def Let_def attr_equals_true class_indicates_locked
    by (cases el) auto
qed

text \<open>A class such as "btn-SoldOut-v2" locks the button; the plain button is not locked.\<close>

theorem locked_flag_characterisation_witness:
  "locked (checkResult soldOutButton) \<and> \<not> locked (checkResult addButton)"
proof -
  have a: "attr soldOutButton ''class'' = Some ''btn-SoldOut-v2''"
    by code_simp
  have "''btn-SoldOut-v2'' = ''btn-'' @ ''SoldOut'' @ ''-v2'' \<and> equalsIgnoreCase ''SoldOut'' ''soldout''"
    by (simp add: equalsIgnoreCase_def sameLetter_def code_def)
  then have c: "containsIgnoreCase ''btn-SoldOut-v2'' ''soldout''"
    unfolding containsIgnoreCase_def by blast
  have 1: "locked (checkResult soldOutButton)"
    using locked_flag_characterisation[of soldOutButton] a c by simp
  have n: "addButton \<noteq> []" "\<not> is_disabled addButton" "attr addButton ''disabled'' = None"
    "attr addButton ''aria-disabled'' = None" "attr addButton ''class'' = None"
    "attr addButton ''data-locked'' = None"
    by (simp_all add: addButton_def is_disabled_def)
  have 2: "\<not> locked (checkResult addButton)"
    using locked_flag_characterisation[of addButton] n by simp
  from 1 2 show ?thesis by simp
qed

text \<open>
  Claim C3. The flag \<open>saysAddToCart\<close> holds exactly when the text of the check result,
  which is the trimmed text of the selection (empty when nothing was found), contains
  "add", white space or none, "to", white space or none, "cart", each word without
  regard to case. The texts "Add to Cart", "ADD  TO CART" and "addtocart" give
  \<open>True\<close>, the text "Sold Out" gives \<open>False\<close>.
\<close>

theorem saysAddToCart_pattern:
  "(saysAddToCart (checkResult el) \<longleftrightarrow>
      (\<exists>pre a w1 t w2 c post. text' (checkResult el) = pre @ a @ w1 @ t @ w2 @ c @ post
         \<and> equalsIgnoreCase a ''add'' \<and> list_all isWhiteSpace w1
         \<and> equalsIgnoreCase t ''to'' \<and> list_all isWhiteSpace w2
         \<and> equalsIgnoreCase c ''cart''))
   \<and> text' (checkResult el) = (if el = [] then [] else trim (text_of el))
   \<and> (text' (checkResult el) = ''Add to Cart'' \<longrightarrow> saysAddToCart (checkResult el))
   \<and> (text' (checkResult el) = ''ADD  TO CART'' \<longrightarrow> saysAddToCart (checkResult el))
   \<and> (text' (checkResult el) = ''addtocart'' \<longrightarrow> saysAddToCart (checkResult el))
   \<and> (text' (checkResult el) = ''Sold Out'' \<longrightarrow> \<not> saysAddToCart (checkResult el))"
  unfolding saysAddToCart_test addToCart_test_iff[symmetric]
  using test_Add_to_Cart test_ADD_TO_CART test_addtocart test_Sold_Out
  by (simp add: text_checkResult)

text \<open>The button of the first test page says "Add to Cart".\<close>

theorem saysAddToCart_pattern_witness:
  "text' (checkResult addButton) = ''Add to Cart'' \<and> saysAddToCart (checkResult addButton)"
proof -
  have t: "text' (checkResult addButton) = ''Add to Cart''"
    by code_simp
  with saysAddToCart_pattern[of addButton] show ?thesis by blast
qed

text \<open>
  Claim C4. When the selector finds no element in the markup, the check result is
  \<open>exists = False\<close>, empty text, \<open>saysAddToCart = False\<close> and \<open>locked = True\<close>, and an
  invocation that fetched this markup (success status, body not blank) returns Success
  with \<open>notified = False\<close>, this result and no email.
\<close>

theorem absent_element_is_unavailable:
  assumes "select html = []"
  shows "checkResult (select html) = \<lparr>exists = False, text' = [], saysAddToCart = False, locked = True\<rparr>
    \<and> (fetch w (targetUrl config) = Inr res \<and> ok res \<and> bodyText res = Inr html \<and> \<not> blank html
        \<longrightarrow> handler select config w source =
              (Inr (HandlerSuccess False
                     \<lparr>exists = False, text' = [], saysAddToCart = False, locked = True\<rparr>), []))"
proof -
  have r: "checkResult (select html) = \<lparr>exists = False, text' = [], saysAddToCart = False, locked = True\<rparr>"
    using assms checkResult_Nil by simp
  have "handler select config w source =
              (Inr (HandlerSuccess False
                     \<lparr>exists = False, text' = [], saysAddToCart = False, locked = True\<rparr>), [])"
    if h: "fetch w (targetUrl config) = Inr res" "ok res" "bodyText res = Inr html" "\<not> blank html"
    using handler_try_checked[OF h, of select source] r
    by (simp add: Let_def handler_of_response)
  with r show ?thesis by blast
qed

text \<open>The page of the third test, without the button.\<close>

theorem absent_element_is_unavailable_witness:
  "handler (constSelect []) sampleConfig
     (mkWorld (Inr (okResponse ''<div>No add button here</div>'')) (Inr ''message-1'')) None
   = (Inr (HandlerSuccess False
        \<lparr>exists = False, text' = [], saysAddToCart = False, locked = True\<rparr>), [])"
proof -
  let ?html = "''<div>No add button here</div>''"
  let ?w = "mkWorld (Inr (okResponse ?html)) (Inr ''message-1'')"
  have e: "constSelect [] ?html = []"
    by (simp add: constSelect_def)
  have f: "fetch ?w (targetUrl sampleConfig) = Inr (okResponse ?html)"
    by (simp add: mkWorld_def)
  have o: "ok (okResponse ?html)"
    by (simp add: okResponse_def)
  have b: "bodyText (okResponse ?html) = Inr ?html"
    by (simp add: okResponse_def)
  have n: "\<not> blank ?html"
    by (simp add: blank_def isWhiteSpace_def code_def)
  from absent_element_is_unavailable
         [of "constSelect []" ?html ?w sampleConfig "okResponse ?html" None] e f o b n
  show ?thesis by blast
qed

text \<open>
  Claim C5. When the fetch answers with a status that is not a success, the handler
  returns FetchFailure with the message "HTTP", the status in decimal, the status text,
  "when fetching" and the target URL. From status 500 on, exactly one email is
  attempted, with the subject "Stock check: Server error detected", and below 500 none.
  A world that differs in what the send does gives the same response and the same
  attempted emails.
\<close>

theorem non_success_status_is_fetch_failure:
  assumes "fetch w (targetUrl config) = Inr res" and "\<not> ok res"
  shows "handler select config w source =
     (Inr (HandlerFetchFail (''HTTP '' @ numberToString (status res) @ '' '' @ statusText res
             @ '' when fetching '' @ targetUrl config)),
      if status res \<ge> 500
      then [\<lparr>emailSubject = Subject ''Stock check: Server error detected'',
             emailHtml = ServerErrorBody (status res) (statusText res) (targetUrl config)\<rparr>]
      else [])
    \<and> handler select config (w\<lparr>ses_send := send'\<rparr>) source = handler select config w source"
proof -
  let ?failure = "(Inr (HandlerFetchFail (''HTTP '' @ numberToString (status res) @ '' ''
             @ statusText res @ '' when fetching '' @ targetUrl config)),
      if status res \<ge> 500
      then [\<lparr>emailSubject = Subject ''Stock check: Server error detected'',
             emailHtml = ServerErrorBody (status res) (statusText res) (targetUrl config)\<rparr>]
      else [])"
  have f': "fetch (w\<lparr>ses_send := send'\<rparr>) (targetUrl config) = Inr res"
    using assms(1) by simp
  have 1: "handler select config w source = ?failure"
    using handler_try_not_ok[OF assms] by (rule handler_of_response)
  have 2: "handler select config (w\<lparr>ses_send := send'\<rparr>) source = ?failure"
    using handler_try_not_ok[OF f' assms(2)] by (rule handler_of_response)
  from 1 2 show ?thesis by (simp only: simp_thms)
qed

text \<open>Status 503, with a send that is rejected.\<close>

theorem non_success_status_is_fetch_failure_witness:
  "handler (constSelect addButton) sampleConfig
     (mkWorld (Inr (failResponse 503 ''Service Unavailable'')) (Inl deliveryError)) None
   = (Inr (HandlerFetchFail
             ''HTTP 503 Service Unavailable when fetching https://shop.example/item''),
      [\<lparr>emailSubject = Subject ''Stock check: Server error detected'',
        emailHtml = ServerErrorBody 503 ''Service Unavailable'' ''https://shop.example/item''\<rparr>])"
proof -
  let ?res = "failResponse 503 ''Service Unavailable''"
  let ?w = "mkWorld (Inr ?res) (Inl deliveryError)"
  have f: "fetch ?w (targetUrl sampleConfig) = Inr ?res"
    by (simp add: mkWorld_def)
  have o: "\<not> ok ?res"
    by (simp add: failResponse_def)
  have d: "numberToString 503 = ''503''"
    by code_simp
  have v: "status ?res = 503" "statusText ?res = ''Service Unavailable''"
    "targetUrl sampleConfig = ''https://shop.example/item''"
    by (simp_all add: failResponse_def sampleConfig_def)
  show ?thesis
    using non_success_status_is_fetch_failure[OF f o, of "constSelect addButton" None]
    by (simp add: v d)
qed

text \<open>
  Claim C6. When the fetch answers with a success status and a body that is empty or
  holds white space only, the handler returns FetchFailure with the message
  "Received empty response from target URL" and attempts no email.
\<close>

theorem blank_body_is_fetch_failure:
  assumes "fetch w (targetUrl config) = Inr res" and "ok res" and "bodyText res = Inr html"
    and "blank html"
  shows "handler select config w source =
     (Inr (HandlerFetchFail ''Received empty response from target URL''), [])"
  using handler_try_blank[OF assms] by (rule handler_of_response)

text \<open>A body of two spaces.\<close>

theorem blank_body_is_fetch_failure_witness:
  "handler (constSelect addButton) sampleConfig
     (mkWorld (Inr (okResponse ''  '')) (Inr ''message-1'')) None
   = (Inr (HandlerFetchFail ''Received empty response from target URL''), [])"
proof -
  let ?w = "mkWorld (Inr (okResponse ''  '')) (Inr ''message-1'')"
  have f: "fetch ?w (targetUrl sampleConfig) = Inr (okResponse ''  '')"
    by (simp add: mkWorld_def)
  have o: "ok (okResponse ''  '')"
    by (simp add: okResponse_def)
  have b: "bodyText (okResponse ''  '') = Inr ''  ''"
    by (simp add: okResponse_def)
  have n: "blank ''  ''"
    by (simp add: blank_def isWhiteSpace_def code_def)
  show ?thesis
    using blank_body_is_fetch_failure[OF f o b n] .
qed

text \<open>
  Claim C7, amended. Validation throws exactly when the target URL is unset or empty or
  is rejected by the URL parser, or one of the two addresses is unset or empty, or one
  of them does not have the shape \<^verbatim>\<open>local@domain.tld\<close> (three non-empty parts without
  white space and without \<^verbatim>\<open>@\<close>, so one \<^verbatim>\<open>@\<close> and a dot after it); characters outside
  ASCII are accepted. When it does not throw, the configuration holds the three values
  of the environment as they are and the region with its default. The handler takes the
  validated configuration as an argument, so there is no invocation without one.
\<close>

theorem validation_throws_iff:
  "(isl (validateEnvironment urlParses e) \<longleftrightarrow>
       falsy (e ''TARGET_URL'') \<or> \<not> urlParses (orElse (e ''TARGET_URL'') [])
     \<or> falsy (e ''TO_EMAIL'') \<or> falsy (e ''FROM_EMAIL'')
     \<or> \<not> emailShape (orElse (e ''TO_EMAIL'') [])
     \<or> \<not> emailShape (orElse (e ''FROM_EMAIL'') []))
   \<and> (validateEnvironment urlParses e = Inr config \<longrightarrow>
         e ''TARGET_URL'' = Some (targetUrl config)
       \<and> e ''TO_EMAIL'' = Some (toEmail config)
       \<and> e ''FROM_EMAIL'' = Some (fromEmail config)
       \<and> region config = orElse (e ''AWS_REGION'') (orElse (e ''AWS_DEFAULT_REGION'') ''us-east-1''))"
proof (intro conjI impI)
  show "isl (validateEnvironment urlParses e) \<longleftrightarrow>
       falsy (e ''TARGET_URL'') \<or> \<not> urlParses (orElse (e ''TARGET_URL'') [])
     \<or> falsy (e ''TO_EMAIL'') \<or> falsy (e ''FROM_EMAIL'')
     \<or> \<not> emailShape (orElse (e ''TO_EMAIL'') [])
     \<or> \<not> emailShape (orElse (e ''FROM_EMAIL'') [])"
    by (simp add: validateEnvironment_def Let_def emailRegex_iff)
next
  assume v: "validateEnvironment urlParses e = Inr config"
  then have nf: "\<not> falsy (e ''TARGET_URL'')" "\<not> falsy (e ''TO_EMAIL'')" "\<not> falsy (e ''FROM_EMAIL'')"
    by (auto simp: validateEnvironment_def Let_def split: if_splits)
  from v have c: "config =
      \<lparr>region = orElse (e ''AWS_REGION'') (orElse (e ''AWS_DEFAULT_REGION'') ''us-east-1''),
       targetUrl = orElse (e ''TARGET_URL'') [], toEmail = orElse (e ''TO_EMAIL'') [],
       fromEmail = orElse (e ''FROM_EMAIL'') []\<rparr>"
    by (auto simp: validateEnvironment_def Let_def split: if_splits)
  show "e ''TARGET_URL'' = Some (targetUrl config)"
    using not_falsy_orElse[OF nf(1), of "[]"] by (simp add: c)
  show "e ''TO_EMAIL'' = Some (toEmail config)"
    using not_falsy_orElse[OF nf(2), of "[]"] by (simp add: c)
  show "e ''FROM_EMAIL'' = Some (fromEmail config)"
    using not_falsy_orElse[OF nf(3), of "[]"] by (simp add: c)
  show "region config = orElse (e ''AWS_REGION'') (orElse (e ''AWS_DEFAULT_REGION'') ''us-east-1'')"
    by (simp add: c)
qed

text \<open>An address without a dot after the \<^verbatim>\<open>@\<close> makes the validation throw.\<close>

theorem validation_throws_iff_witness:
  "isl (validateEnvironment httpsOnly
     (map_of [(''TARGET_URL'', ''https://shop.example/item''), (''TO_EMAIL'', ''me@shop''),
              (''FROM_EMAIL'', ''alerts@shop.example'')]))"
proof -
  let ?e = "map_of [(''TARGET_URL'', ''https://shop.example/item''), (''TO_EMAIL'', ''me@shop''),
              (''FROM_EMAIL'', ''alerts@shop.example'')]"
  have "\<not> testAnchored emailRegex ''me@shop''"
    by code_simp
  then have "\<not> emailShape ''me@shop''"
    by (simp add: emailRegex_iff)
  moreover have "orElse (?e ''TO_EMAIL'') [] = ''me@shop''"
    by simp
  ultimately show ?thesis
    using validation_throws_iff[of httpsOnly ?e] by simp
qed

text \<open>
  Claim C7 as the specification words it fails: an address with a character outside
  ASCII (here U+00E9) does not pass the specification's check, and the validation
  returns the configuration.
\<close>

theorem validation_ascii_counterexample:
  "specRejects httpsOnly
     (map_of [(''TARGET_URL'', ''https://shop.example/item''),
              (''TO_EMAIL'', CHR 0xE9 # ''@shop.example''),
              (''FROM_EMAIL'', ''alerts@shop.example'')])
   \<and> validateEnvironment httpsOnly
     (map_of [(''TARGET_URL'', ''https://shop.example/item''),
              (''TO_EMAIL'', CHR 0xE9 # ''@shop.example''),
              (''FROM_EMAIL'', ''alerts@shop.example'')])
   = Inr \<lparr>region = ''us-east-1'', targetUrl = ''https://shop.example/item'',
          toEmail = CHR 0xE9 # ''@shop.example'', fromEmail = ''alerts@shop.example''\<rparr>"
proof
  have "\<not> specEmailValid (CHR 0xE9 # ''@shop.example'')"
    by (simp add: specEmailValid_def isAscii_def code_def)
  then show "specRejects httpsOnly
     (map_of [(''TARGET_URL'', ''https://shop.example/item''),
              (''TO_EMAIL'', CHR 0xE9 # ''@shop.example''),
              (''FROM_EMAIL'', ''alerts@shop.example'')])"
    by (simp add: specRejects_def)
next
  show "validateEnvironment httpsOnly
     (map_of [(''TARGET_URL'', ''https://shop.example/item''),
              (''TO_EMAIL'', CHR 0xE9 # ''@shop.example''),
              (''FROM_EMAIL'', ''alerts@shop.example'')])
   = Inr \<lparr>region = ''us-east-1'', targetUrl = ''https://shop.example/item'',
          toEmail = CHR 0xE9 # ''@shop.example'', fromEmail = ''alerts@shop.example''\<rparr>"
    by code_simp
qed




text \<open>
  Claim C9. The check result is a function of the markup alone: two invocations that
  fetched the same markup (success status, body not blank) return Success with the same
  check result, whatever their configurations, worlds (clock, outcome of sends) and
  events are.
\<close>

theorem check_result_depends_on_markup_only:
  assumes "fetch w1 (targetUrl config1) = Inr res1" and "ok res1" and "bodyText res1 = Inr html"
    and "fetch w2 (targetUrl config2) = Inr res2" and "ok res2" and "bodyText res2 = Inr html"
    and "\<not> blank html"
  shows "\<exists>notified1 notified2.
           fst (handler select config1 w1 source1)
             = Inr (HandlerSuccess notified1 (checkResult (select html)))
         \<and> fst (handler select config2 w2 source2)
             = Inr (HandlerSuccess notified2 (checkResult (select html)))"
  using handler_success_result[OF assms(1,2,3,7), of select source1]
    handler_success_result[OF assms(4,5,6,7), of select source2]
  by blast

text \<open>
  The same page fetched in two worlds, one with a working send and a caller-supplied
  execution id, one with a rejected send: the same check result.
\<close>

theorem check_result_depends_on_markup_only_witness:
  "\<exists>notified1 notified2.
     fst (handler (constSelect addButton) sampleConfig
            (mkWorld (Inr (okResponse ''<button id=add> Add to Cart </button>'')) (Inr ''message-1''))
            (Some ''aws.events''))
       = Inr (HandlerSuccess notified1
           (checkResult (constSelect addButton ''<button id=add> Add to Cart </button>'')))
   \<and> fst (handler (constSelect addButton) sampleConfig
            (mkWorld (Inr (okResponse ''<button id=add> Add to Cart </button>'')) (Inl deliveryError))
            None)
       = Inr (HandlerSuccess notified2
           (checkResult (constSelect addButton ''<button id=add> Add to Cart </button>'')))"
proof -
  let ?html = "''<button id=add> Add to Cart </button>''"
  let ?w1 = "mkWorld (Inr (okResponse ?html)) (Inr ''message-1'')"
  let ?w2 = "mkWorld (Inr (okResponse ?html)) (Inl deliveryError)"
  have f1: "fetch ?w1 (targetUrl sampleConfig) = Inr (okResponse ?html)"
    by (simp add: mkWorld_def)
  have f2: "fetch ?w2 (targetUrl sampleConfig) = Inr (okResponse ?html)"
    by (simp add: mkWorld_def)
  have o: "ok (okResponse ?html)"
    by (simp add: okResponse_def)
  have b: "bodyText (okResponse ?html) = Inr ?html"
    by (simp add: okResponse_def)
  have n: "\<not> blank ?html"
    by (simp add: blank_def isWhiteSpace_def code_def)
  show ?thesis
    using check_result_depends_on_markup_only[OF f1 o b f2 o b n] .
qed

text \<open>
  Claim C10. A variable holding the empty string counts as unset: unsetting it does not
  change the outcome of the validation. With \<^verbatim>\<open>AWS_REGION\<close> and \<^verbatim>\<open>AWS_DEFAULT_REGION\<close> each
  unset or empty, an environment whose target URL and addresses pass the checks gives
  the configuration with the region "us-east-1", and no configuration with another
  region is returned. When \<^verbatim>\<open>TARGET_URL\<close>, \<^verbatim>\<open>TO_EMAIL\<close> or \<^verbatim>\<open>FROM_EMAIL\<close> is the empty string,
  the validation throws an error that a variable is required: the one for the target
  URL when that is unset or empty, the one for the two addresses otherwise.
\<close>

theorem empty_value_is_absent:
  "(e k = Some [] \<longrightarrow>
      validateEnvironment urlParses (e(k := None)) = validateEnvironment urlParses e)
   \<and> (falsy (e ''AWS_REGION'') \<and> falsy (e ''AWS_DEFAULT_REGION'')
        \<and> e ''TARGET_URL'' = Some url \<and> url \<noteq> [] \<and> urlParses url
        \<and> e ''TO_EMAIL'' = Some recipient \<and> emailShape recipient
        \<and> e ''FROM_EMAIL'' = Some sender \<and> emailShape sender \<longrightarrow>
        validateEnvironment urlParses e
          = Inr \<lparr>region = ''us-east-1'', targetUrl = url, toEmail = recipient,
                 fromEmail = sender\<rparr>)
   \<and> (falsy (e ''AWS_REGION'') \<and> falsy (e ''AWS_DEFAULT_REGION'')
        \<and> validateEnvironment urlParses e = Inr config \<longrightarrow> region config = ''us-east-1'')
   \<and> (e ''TARGET_URL'' = Some [] \<or> e ''TO_EMAIL'' = Some [] \<or> e ''FROM_EMAIL'' = Some [] \<longrightarrow>
        validateEnvironment urlParses e
          = Inl (ErrorObject ''Error''
                   (if falsy (e ''TARGET_URL'')
                    then ''TARGET_URL environment variable is required''
                    else ''TO_EMAIL and FROM_EMAIL environment variables are required'')))"
proof (intro conjI impI)
  assume "e k = Some []"
  then show "validateEnvironment urlParses (e(k := None)) = validateEnvironment urlParses e"
    by (rule validate_unset)
next
  assume a: "falsy (e ''AWS_REGION'') \<and> falsy (e ''AWS_DEFAULT_REGION'')
        \<and> e ''TARGET_URL'' = Some url \<and> url \<noteq> [] \<and> urlParses url
        \<and> e ''TO_EMAIL'' = Some recipient \<and> emailShape recipient
        \<and> e ''FROM_EMAIL'' = Some sender \<and> emailShape sender"
  then have n: "recipient \<noteq> []" "sender \<noteq> []"
    by (auto dest: emailShape_nonempty)
  from a have r: "orElse (e ''AWS_REGION'') (orElse (e ''AWS_DEFAULT_REGION'') ''us-east-1'')
                    = ''us-east-1''"
    by (simp add: orElse_falsy)
  from a n show "validateEnvironment urlParses e
          = Inr \<lparr>region = ''us-east-1'', targetUrl = url, toEmail = recipient,
                 fromEmail = sender\<rparr>"
    by (simp add: validateEnvironment_def Let_def emailRegex_iff r)
next
  assume a: "falsy (e ''AWS_REGION'') \<and> falsy (e ''AWS_DEFAULT_REGION'')
        \<and> validateEnvironment urlParses e = Inr config"
  then have "region config = orElse (e ''AWS_REGION'') (orElse (e ''AWS_DEFAULT_REGION'') ''us-east-1'')"
    by (auto simp: validateEnvironment_def Let_def split: if_splits)
  with a show "region config = ''us-east-1''" by (simp add: orElse_falsy)
next
  assume a: "e ''TARGET_URL'' = Some [] \<or> e ''TO_EMAIL'' = Some [] \<or> e ''FROM_EMAIL'' = Some []"
  show "validateEnvironment urlParses e
          = Inl (ErrorObject ''Error''
                   (if falsy (e ''TARGET_URL'')
                    then ''TARGET_URL environment variable is required''
                    else ''TO_EMAIL and FROM_EMAIL environment variables are required''))"
  proof (cases "falsy (e ''TARGET_URL'')")
    case True
    then show ?thesis by (simp add: validateEnvironment_def)
  next
    case False
    with a have "falsy (e ''TO_EMAIL'') \<or> falsy (e ''FROM_EMAIL'')" by auto
    with False show ?thesis by (simp add: validateEnvironment_def Let_def)
  qed
qed

text \<open>
  With \<^verbatim>\<open>AWS_REGION\<close> empty and \<^verbatim>\<open>AWS_DEFAULT_REGION\<close> unset the configuration is returned
  with the default region; an empty recipient address gives the error that the
  addresses are required.
\<close>

theorem empty_value_is_absent_witness:
  "validateEnvironment httpsOnly
     (map_of [(''AWS_REGION'', []), (''TARGET_URL'', ''https://shop.example/item''),
              (''TO_EMAIL'', ''me@shop.example''), (''FROM_EMAIL'', ''alerts@shop.example'')])
   = Inr \<lparr>region = ''us-east-1'', targetUrl = ''https://shop.example/item'',
          toEmail = ''me@shop.example'', fromEmail = ''alerts@shop.example''\<rparr>
   \<and> validateEnvironment httpsOnly
     (map_of [(''TARGET_URL'', ''https://shop.example/item''), (''TO_EMAIL'', []),
              (''FROM_EMAIL'', ''alerts@shop.example'')])
   = Inl (ErrorObject ''Error'' ''TO_EMAIL and FROM_EMAIL environment variables are required'')"
proof -
  let ?e1 = "map_of [(''AWS_REGION'', []), (''TARGET_URL'', ''https://shop.example/item''),
              (''TO_EMAIL'', ''me@shop.example''), (''FROM_EMAIL'', ''alerts@shop.example'')]"
  let ?e2 = "map_of [(''TARGET_URL'', ''https://shop.example/item''), (''TO_EMAIL'', []),
              (''FROM_EMAIL'', ''alerts@shop.example'')]"
  have "testAnchored emailRegex ''me@shop.example''"
    by code_simp
  then have s1: "emailShape ''me@shop.example''"
    by (simp add: emailRegex_iff)
  have "testAnchored emailRegex ''alerts@shop.example''"
    by code_simp
  then have s2: "emailShape ''alerts@shop.example''"
    by (simp add: emailRegex_iff)
  have u: "httpsOnly ''https://shop.example/item''"
    by (simp add: httpsOnly_def)
  have v: "falsy (?e1 ''AWS_REGION'')" "falsy (?e1 ''AWS_DEFAULT_REGION'')"
    "?e1 ''TARGET_URL'' = Some ''https://shop.example/item''"
    "?e1 ''TO_EMAIL'' = Some ''me@shop.example''"
    "?e1 ''FROM_EMAIL'' = Some ''alerts@shop.example''"
    by simp_all
  from empty_value_is_absent
         [of ?e1 _ httpsOnly "''https://shop.example/item''" "''me@shop.example''"
             "''alerts@shop.example''"] s1 s2 u v
  have 1: "validateEnvironment httpsOnly ?e1
   = Inr \<lparr>region = ''us-east-1'', targetUrl = ''https://shop.example/item'',
          toEmail = ''me@shop.example'', fromEmail = ''alerts@shop.example''\<rparr>"
    by simp
  have f: "\<not> falsy (?e2 ''TARGET_URL'')" "?e2 ''TO_EMAIL'' = Some []"
    by simp_all
  from empty_value_is_absent[of ?e2 _ httpsOnly] f
  have 2: "validateEnvironment httpsOnly ?e2
   = Inl (ErrorObject ''Error'' ''TO_EMAIL and FROM_EMAIL environment variables are required'')"
    by simp
  from 1 2 show ?thesis by (rule conjI)
qed

end
